theory Spec2Isabelle
  imports Complex_Main
begin

section \<open>Python values as the Correlator sees them\<close>

text \<open>
  The Correlator (\<^verbatim>\<open>src/metric/src/metric.py\<close>) works on whatever \<^verbatim>\<open>json.loads\<close>
  returns: \<^verbatim>\<open>None\<close>, booleans, unbounded integers, floats, strings, lists and dicts.
  A Python float is an IEEE-754 binary64 number. A finite one is kept here by its exact
  rational value (\<open>Fin 0\<close> is \<^verbatim>\<open>0.0\<close>); the negative zero, the infinities and the
  NaN are constructors of their own. Arithmetic computes the exact rational result and
  rounds it to the nearest binary64 value, ties to even.
\<close>

datatype pyfloat = Fin rat | NegZero | PosInf | NegInf | NaN

datatype pyval =
    PNone
  | PBool bool
  | PInt int
  | PFloat pyfloat
  | PStr string
  | PList "pyval list"
  | PDict "(string \<times> pyval) list"

text \<open>
  The exception classes that the modelled code can meet. \<open>KeyboardInterrupt\<close> derives
  from \<^verbatim>\<open>BaseException\<close> only; every other class below derives from \<^verbatim>\<open>Exception\<close>.
\<close>

datatype py_error =
    JSONDecodeError
  | UnicodeDecodeError
  | RecursionError
  | AttributeError
  | TypeError
  | KeyError
  | IndexError
  | ValueError
  | OverflowError
  | OSError
  | KeyboardInterrupt

fun is_Exception :: "py_error \<Rightarrow> bool" where
  "is_Exception KeyboardInterrupt = False"
| "is_Exception _ = True"

subsection \<open>binary64 rounding\<close>

definition pow2 :: "int \<Rightarrow> rat" where
  "pow2 e = (if 0 \<le> e then 2 ^ nat e else 1 / 2 ^ nat (- e))"

text \<open>The number of binary digits of a positive integer (0 for the others).\<close>

function bit_length :: "int \<Rightarrow> int" where
  "bit_length i = (if i \<le> 0 then 0 else 1 + bit_length (i div 2))"
  by pat_completeness auto
termination
  by (relation "measure nat") auto

text \<open>
  \<open>floor_log2 q\<close> is the integer \<open>e\<close> with \<open>2^e \<le> q < 2^(e+1)\<close>, for \<open>q > 0\<close>:
  from the length of the integer part when \<open>q \<ge> 1\<close>, from the length of the reciprocal
  rounded up when \<open>q < 1\<close>.
\<close>

definition floor_log2 :: "rat \<Rightarrow> int" where
  "floor_log2 q =
     (if 1 \<le> q then bit_length \<lfloor>q\<rfloor> - 1 else - bit_length (\<lceil>1 / q\<rceil> - 1))"

definition round_half_even :: "rat \<Rightarrow> int" where
  "round_half_even q =
     (let f = \<lfloor>q\<rfloor>; r = q - of_int f
      in if r < 1 / 2 then f
         else if 1 / 2 < r then f + 1
         else if even f then f else f + 1)"

text \<open>
  Rounding a real value to binary64: 53 significant bits, the exponent of the least
  significant bit never below \<open>-1074\<close> (subnormals), underflow to a signed zero,
  overflow to an infinity when the rounded value reaches \<open>2^1024\<close>.
\<close>

definition round_double :: "rat \<Rightarrow> pyfloat" where
  "round_double q =
     (if q = 0 then Fin 0
      else
        let e = max (floor_log2 \<bar>q\<bar>) (- 1022);
            ulp = pow2 (e - 52);
            r = of_int (round_half_even (q / ulp)) * ulp
        in if r = 0 then (if q < 0 then NegZero else Fin 0)
           else if 1024 \<le> floor_log2 \<bar>r\<bar> then (if q < 0 then NegInf else PosInf)
           else Fin r)"

text \<open>\<^verbatim>\<open>float(i)\<close> for an int operand: correctly rounded, \<^verbatim>\<open>OverflowError\<close> when too large.\<close>

definition int_to_float :: "int \<Rightarrow> py_error + pyfloat" where
  "int_to_float i =
     (case round_double (of_int i) of
        PosInf \<Rightarrow> Inl OverflowError
      | NegInf \<Rightarrow> Inl OverflowError
      | f \<Rightarrow> Inr f)"

fun fsub :: "pyfloat \<Rightarrow> pyfloat \<Rightarrow> pyfloat" where
  "fsub NaN _ = NaN"
| "fsub _ NaN = NaN"
| "fsub PosInf PosInf = NaN"
| "fsub NegInf NegInf = NaN"
| "fsub PosInf _ = PosInf"
| "fsub NegInf _ = NegInf"
| "fsub _ PosInf = NegInf"
| "fsub _ NegInf = PosInf"
| "fsub NegZero NegZero = Fin 0"
| "fsub NegZero (Fin b) = (if b = 0 then NegZero else round_double (- b))"
| "fsub (Fin a) NegZero = Fin a"
| "fsub (Fin a) (Fin b) = round_double (a - b)"

fun fabs :: "pyfloat \<Rightarrow> pyfloat" where
  "fabs (Fin q) = Fin \<bar>q\<bar>"
| "fabs NegZero = Fin 0"
| "fabs PosInf = PosInf"
| "fabs NegInf = PosInf"
| "fabs NaN = NaN"

subsection \<open>Truth value, subtraction, absolute value\<close>

text \<open>\<^verbatim>\<open>bool(x)\<close>, which \<^verbatim>\<open>not x\<close> and \<^verbatim>\<open>x or y\<close> consult: \<^verbatim>\<open>x or y\<close> is \<^verbatim>\<open>x\<close> when
  \<^verbatim>\<open>x\<close> is truthy and \<^verbatim>\<open>y\<close> otherwise.\<close>

fun py_truthy :: "pyval \<Rightarrow> bool" where
  "py_truthy PNone = False"
| "py_truthy (PBool b) = b"
| "py_truthy (PInt i) = (i \<noteq> 0)"
| "py_truthy (PFloat (Fin q)) = (q \<noteq> 0)"
| "py_truthy (PFloat NegZero) = False"
| "py_truthy (PFloat _) = True"
| "py_truthy (PStr s) = (s \<noteq> [])"
| "py_truthy (PList xs) = (xs \<noteq> [])"
| "py_truthy (PDict kvs) = (kvs \<noteq> [])"

text \<open>
  \<^verbatim>\<open>a - b\<close>. A bool is an int. Two ints subtract exactly; as soon as one operand is a
  float the other is converted to float. Every other operand type of a JSON value raises
  \<^verbatim>\<open>TypeError\<close>.
\<close>

datatype pynum = NInt int | NFloat pyfloat

fun as_number :: "pyval \<Rightarrow> pynum option" where
  "as_number (PBool b) = Some (NInt (if b then 1 else 0))"
| "as_number (PInt i) = Some (NInt i)"
| "as_number (PFloat f) = Some (NFloat f)"
| "as_number _ = None"

fun num_sub :: "pynum \<Rightarrow> pynum \<Rightarrow> py_error + pyval" where
  "num_sub (NInt a) (NInt b) = Inr (PInt (a - b))"
| "num_sub (NFloat a) (NFloat b) = Inr (PFloat (fsub a b))"
| "num_sub (NInt a) (NFloat b) =
     (case int_to_float a of Inl e \<Rightarrow> Inl e | Inr a' \<Rightarrow> Inr (PFloat (fsub a' b)))"
| "num_sub (NFloat a) (NInt b) =
     (case int_to_float b of Inl e \<Rightarrow> Inl e | Inr b' \<Rightarrow> Inr (PFloat (fsub a b')))"

definition py_sub :: "pyval \<Rightarrow> pyval \<Rightarrow> py_error + pyval" where
  "py_sub a b =
     (case (as_number a, as_number b) of
        (Some x, Some y) \<Rightarrow> num_sub x y
      | _ \<Rightarrow> Inl TypeError)"

fun py_abs :: "pyval \<Rightarrow> py_error + pyval" where
  "py_abs (PBool b) = Inr (PInt (if b then 1 else 0))"
| "py_abs (PInt i) = Inr (PInt \<bar>i\<bar>)"
| "py_abs (PFloat f) = Inr (PFloat (fabs f))"
| "py_abs _ = Inl TypeError"

text \<open>\<^verbatim>\<open>message.get(key)\<close>: only a dict has \<^verbatim>\<open>get\<close>; a missing key gives \<^verbatim>\<open>None\<close>.
  A dict is the list of its items; \<^verbatim>\<open>json.loads\<close> returns every key once.\<close>

definition dict_get :: "(string \<times> pyval) list \<Rightarrow> string \<Rightarrow> pyval" where
  "dict_get kvs k = (case map_of kvs k of None \<Rightarrow> PNone | Some v \<Rightarrow> v)"

fun py_get :: "pyval \<Rightarrow> string \<Rightarrow> py_error + pyval" where
  "py_get (PDict kvs) k = Inr (dict_get kvs k)"
| "py_get _ k = Inl AttributeError"

subsection \<open>Dictionary keys\<close>

text \<open>
  \<^verbatim>\<open>data\<close> is a dict keyed by the message id. Python finds a key by hash and \<^verbatim>\<open>==\<close>:
  \<^verbatim>\<open>1\<close>, \<^verbatim>\<open>1.0\<close> and \<^verbatim>\<open>True\<close> are one key, numbers compare by exact value, a list or a
  dict is unhashable (\<^verbatim>\<open>TypeError\<close>). \<^verbatim>\<open>json.loads\<close> returns one and the same NaN object
  for every \<^verbatim>\<open>NaN\<close> literal, which the dict finds by identity.
\<close>

datatype pykey = KNone | KNum rat | KPosInf | KNegInf | KNaN | KStr string

fun to_key :: "pyval \<Rightarrow> py_error + pykey" where
  "to_key PNone = Inr KNone"
| "to_key (PBool b) = Inr (KNum (if b then 1 else 0))"
| "to_key (PInt i) = Inr (KNum (of_int i))"
| "to_key (PFloat (Fin q)) = Inr (KNum q)"
| "to_key (PFloat NegZero) = Inr (KNum 0)"
| "to_key (PFloat PosInf) = Inr KPosInf"
| "to_key (PFloat NegInf) = Inr KNegInf"
| "to_key (PFloat NaN) = Inr KNaN"
| "to_key (PStr s) = Inr (KStr s)"
| "to_key (PList _) = Inl TypeError"
| "to_key (PDict _) = Inl TypeError"

subsection \<open>Text of a value: \<^verbatim>\<open>str\<close> as an f-string applies it\<close>

text \<open>The decimal digits of a non-negative integer.\<close>

function digits10 :: "int \<Rightarrow> string" where
  "digits10 i =
     (if i < 10 then [''0123456789'' ! nat i]
      else digits10 (i div 10) @ [''0123456789'' ! nat (i mod 10)])"
  by pat_completeness auto
termination
  by (relation "measure nat") auto

text \<open>
  \<^verbatim>\<open>str\<close> of an int. CPython refuses to convert an int of more than
  \<^verbatim>\<open>sys.get_int_max_str_digits()\<close> digits, 4300 unless configured otherwise, to decimal
  text and raises \<^verbatim>\<open>ValueError\<close>; the sign is not counted.
\<close>

definition int_max_str_digits :: nat where
  "int_max_str_digits = 4300"

definition int_str :: "int \<Rightarrow> py_error + string" where
  "int_str i =
     (let ds = digits10 \<bar>i\<bar>
      in if int_max_str_digits < length ds then Inl ValueError
         else Inr ((if i < 0 then ''-'' else []) @ ds))"

definition pow10 :: "int \<Rightarrow> rat" where
  "pow10 e = (if 0 \<le> e then 10 ^ nat e else 1 / 10 ^ nat (- e))"

text \<open>\<open>floor_log10 q\<close> is the integer \<open>p\<close> with \<open>10^p \<le> q < 10^(p+1)\<close>, for \<open>q > 0\<close>.\<close>

definition floor_log10 :: "rat \<Rightarrow> int" where
  "floor_log10 q =
     (if 1 \<le> q then int (length (digits10 \<lfloor>q\<rfloor>)) - 1
      else - int (length (digits10 (\<lceil>1 / q\<rceil> - 1))))"

text \<open>
  \<^verbatim>\<open>repr\<close> of a float prints the shortest decimal numeral that reads back as the same
  float, the closest one to the float's value where several are as short. With \<open>n\<close>
  significant digits the two numerals around \<open>a\<close> are \<open>lo\<close> and \<open>lo + 1\<close> times
  \<open>10^(p - n + 1)\<close>; \<open>shortest_digits\<close> tries \<open>n = 1, 2, ...\<close> up to 17 digits, which
  always suffice for a binary64 value. The result is the digit string and the position
  of the decimal point relative to its start.
\<close>

definition strip_zeros :: "string \<Rightarrow> string" where
  "strip_zeros ds = (case rev (dropWhile (\<lambda>c. c = CHR ''0'') (rev ds)) of [] \<Rightarrow> ''0'' | xs \<Rightarrow> xs)"

definition digits_out :: "nat \<Rightarrow> int \<Rightarrow> int \<Rightarrow> string \<times> int" where
  "digits_out n p c =
     (let ds = digits10 c in (strip_zeros ds, p + 1 + (int (length ds) - int n)))"

definition reads_back :: "rat \<Rightarrow> rat \<Rightarrow> bool" where
  "reads_back a d = (round_double d = Fin a)"

definition prefer_lo :: "rat \<Rightarrow> rat \<Rightarrow> int \<Rightarrow> bool" where
  "prefer_lo a scale lo =
     (let d_lo = a - of_int lo * scale; d_hi = of_int (lo + 1) * scale - a
      in d_lo < d_hi \<or> (d_lo = d_hi \<and> even lo))"

fun shortest_digits :: "nat \<Rightarrow> nat \<Rightarrow> rat \<Rightarrow> int \<Rightarrow> string \<times> int" where
  "shortest_digits 0 n a p =
     (let scale = pow10 (p - int n + 1); lo = \<lfloor>a / scale\<rfloor>
      in if reads_back a (of_int lo * scale)
            \<and> (\<not> reads_back a (of_int (lo + 1) * scale) \<or> prefer_lo a scale lo)
         then digits_out n p lo
         else if reads_back a (of_int (lo + 1) * scale) then digits_out n p (lo + 1)
         else digits_out n p (if prefer_lo a scale lo then lo else lo + 1))"
| "shortest_digits (Suc fuel) n a p =
     (let scale = pow10 (p - int n + 1); lo = \<lfloor>a / scale\<rfloor>
      in if reads_back a (of_int lo * scale)
            \<and> (\<not> reads_back a (of_int (lo + 1) * scale) \<or> prefer_lo a scale lo)
         then digits_out n p lo
         else if reads_back a (of_int (lo + 1) * scale) then digits_out n p (lo + 1)
         else shortest_digits fuel (Suc n) a p)"

text \<open>
  The layout \<^verbatim>\<open>repr\<close> gives the digits: scientific notation when the decimal point lies
  more than 16 places right of the first digit or more than 3 zeros left of it, else
  positional notation, with \<^verbatim>\<open>.0\<close> added to an integral value.
\<close>

definition layout_digits :: "string \<Rightarrow> int \<Rightarrow> string" where
  "layout_digits ds decpt =
     (if decpt \<le> - 4 \<or> 16 < decpt then
        (let e10 = decpt - 1;
             ex = digits10 \<bar>e10\<bar>
         in (if length ds = 1 then ds else hd ds # ''.'' @ tl ds)
            @ ''e'' @ (if e10 < 0 then ''-'' else ''+'')
            @ (if length ex < 2 then ''0'' @ ex else ex))
      else if decpt \<le> 0 then ''0.'' @ replicate (nat (- decpt)) (CHR ''0'') @ ds
      else if int (length ds) \<le> decpt then
        ds @ replicate (nat decpt - length ds) (CHR ''0'') @ ''.0''
      else take (nat decpt) ds @ ''.'' @ drop (nat decpt) ds)"

fun float_repr :: "pyfloat \<Rightarrow> string" where
  "float_repr NaN = ''nan''"
| "float_repr PosInf = ''inf''"
| "float_repr NegInf = ''-inf''"
| "float_repr NegZero = ''-0.0''"
| "float_repr (Fin q) =
     (if q = 0 then ''0.0''
      else
        let (ds, decpt) = shortest_digits 16 1 \<bar>q\<bar> (floor_log10 \<bar>q\<bar>)
        in (if q < 0 then ''-'' else []) @ layout_digits ds decpt)"

text \<open>
  \<^verbatim>\<open>str(x)\<close> for the values that reach a log row: the id is a truthy, hashable value and
  the three numbers went through a subtraction, so no list and no dict is ever printed
  there; their text is left unspecified. A \<open>PStr\<close> holds the UTF-8 bytes of the string,
  so a string that cannot be encoded (a lone surrogate) is not a value of the model.
\<close>

fun py_str :: "pyval \<Rightarrow> py_error + string" where
  "py_str PNone = Inr ''None''"
| "py_str (PBool b) = Inr (if b then ''True'' else ''False'')"
| "py_str (PInt i) = int_str i"
| "py_str (PFloat f) = Inr (float_repr f)"
| "py_str (PStr s) = Inr s"

section \<open>Files and paths\<close>

text \<open>
  \<^verbatim>\<open>os.path.join\<close> depends on the platform. On POSIX the separator is \<^verbatim>\<open>/\<close>; on
  Windows a joined component is attached with a backslash, \<^verbatim>\<open>/\<close> counts as a separator
  too, and a leading \<^verbatim>\<open>X:\<close> is a drive (UNC and device paths are left out: none occurs).
\<close>

datatype os = Posix | Nt

definition backslash :: char where
  "backslash = CHR 0x5C"

definition posix_join :: "string \<Rightarrow> string \<Rightarrow> string" where
  "posix_join a b =
     (if b \<noteq> [] \<and> hd b = CHR ''/'' then b
      else if a = [] \<or> last a = CHR ''/'' then a @ b
      else a @ ''/'' @ b)"

definition nt_sep :: "char \<Rightarrow> bool" where
  "nt_sep c = (c = CHR ''/'' \<or> c = backslash)"

definition drive_of :: "string \<Rightarrow> string" where
  "drive_of p = (if 2 \<le> length p \<and> p ! 1 = CHR '':'' then take 2 p else [])"

definition lower_char :: "char \<Rightarrow> char" where
  "lower_char c =
     (let n = of_char c :: nat in if 65 \<le> n \<and> n \<le> 90 then char_of (n + 32) else c)"

definition nt_join :: "string \<Rightarrow> string \<Rightarrow> string" where
  "nt_join a b =
     (let ad = drive_of a; ar = drop (length ad) a;
          bd = drive_of b; br = drop (length bd) b
      in if br \<noteq> [] \<and> nt_sep (hd br) then (if bd \<noteq> [] \<or> ad = [] then bd else ad) @ br
         else if bd \<noteq> [] \<and> bd \<noteq> ad \<and> map lower_char bd \<noteq> map lower_char ad then bd @ br
         else (if bd \<noteq> [] \<and> bd \<noteq> ad then bd else ad)
              @ (if ar \<noteq> [] \<and> \<not> nt_sep (last ar) then ar @ [backslash] else ar)
              @ br)"

fun os_path_join :: "os \<Rightarrow> string \<Rightarrow> string \<Rightarrow> string" where
  "os_path_join Posix a b = posix_join a b"
| "os_path_join Nt a b = nt_join a b"

text \<open>
  The file system: the text of each file by its path, as reading and writing in text
  mode see it, and the paths that cannot be opened for writing (a missing directory, a
  permission, a full disk). Opening in mode \<^verbatim>\<open>'a'\<close> creates a missing file; a write
  goes to the end.
\<close>

record filesystem =
  platform :: os
  files :: "string \<rightharpoonup> string"
  unwritable :: "string set"

definition file_text :: "filesystem \<Rightarrow> string \<Rightarrow> string" where
  "file_text f path = (case files f path of None \<Rightarrow> [] | Some old \<Rightarrow> old)"

definition open_append :: "filesystem \<Rightarrow> string \<Rightarrow> py_error + filesystem" where
  "open_append f path =
     (if path \<in> unwritable f then Inl OSError
      else Inr (f\<lparr>files := (files f)(path \<mapsto> file_text f path)\<rparr>))"

definition write_text :: "filesystem \<Rightarrow> string \<Rightarrow> string \<Rightarrow> filesystem" where
  "write_text f path text = f\<lparr>files := (files f)(path \<mapsto> file_text f path @ text)\<rparr>"

section \<open>The Metric Correlator\<close>

text \<open>\<^verbatim>\<open>log_dir = 'D:/lab/logs/logs'\<close> (metric.py, line 7).\<close>

definition log_dir :: string where
  "log_dir = ''D:/lab/logs/logs''"

text \<open>
  The calls of the \<^verbatim>\<open>logging\<close> module, one constructor for each call site of
  metric.py, with the values its message formats.
\<close>

datatype log_record =
    Info_recorded pyval pyval
  | Error_file_write py_error
  | Warning_no_id pyval
  | Warning_no_value pyval
  | Error_json_decode py_error
  | Error_processing py_error

text \<open>
  A pending entry is the inner dict \<^verbatim>\<open>data[message_id]\<close>, which only ever gets the keys
  \<^verbatim>\<open>'y_true'\<close> and \<^verbatim>\<open>'y_pred'\<close>. The state is the global \<^verbatim>\<open>data\<close>, the file system and
  the records logged so far.
\<close>

record entry =
  y_true :: "pyval option"
  y_pred :: "pyval option"

record state =
  data :: "pykey \<rightharpoonup> entry"
  fs :: filesystem
  logged :: "log_record list"

definition logging :: "log_record \<Rightarrow> state \<Rightarrow> state" where
  "logging r s = s\<lparr>logged := logged s @ [r]\<rparr>"

definition csv_path :: "os \<Rightarrow> string" where
  "csv_path pf = os_path_join pf log_dir ''metric_log.csv''"

text \<open>
  The f-string of metric.py, line 16: the four values, formatted from left to right,
  comma-separated, and a newline. It raises what formatting a value raises.
\<close>

definition newline :: char where
  "newline = CHR 0x0A"

definition csv_row :: "pyval \<Rightarrow> pyval \<Rightarrow> pyval \<Rightarrow> pyval \<Rightarrow> py_error + string" where
  "csv_row message_id yt yp error =
     (case py_str message_id of Inl e \<Rightarrow> Inl e | Inr a \<Rightarrow>
      case py_str yt of Inl e \<Rightarrow> Inl e | Inr b \<Rightarrow>
      case py_str yp of Inl e \<Rightarrow> Inl e | Inr c \<Rightarrow>
      case py_str error of Inl e \<Rightarrow> Inl e | Inr d \<Rightarrow>
        Inr (a @ '','' @ b @ '','' @ c @ '','' @ d @ [newline]))"

text \<open>
  \<^verbatim>\<open>log_error_to_csv\<close> (lines 13-19): open the file for appending, format the row, write
  it and log it; any exception of the \<^verbatim>\<open>with\<close> statement, of the \<^verbatim>\<open>open\<close> or of the
  formatting, is caught and logged. When the formatting raises, the file has been opened,
  hence created if it was missing, and nothing is written.
\<close>

definition log_error_to_csv :: "pyval \<Rightarrow> pyval \<Rightarrow> pyval \<Rightarrow> pyval \<Rightarrow> state \<Rightarrow> state" where
  "log_error_to_csv message_id yt yp error s =
     (case open_append (fs s) (csv_path (platform (fs s))) of
        Inl e \<Rightarrow> logging (Error_file_write e) s
      | Inr f \<Rightarrow>
          (case csv_row message_id yt yp error of
             Inl e \<Rightarrow> logging (Error_file_write e) (s\<lparr>fs := f\<rparr>)
           | Inr row \<Rightarrow>
               logging (Info_recorded message_id error)
                 (s\<lparr>fs := write_text f (csv_path (platform (fs s))) row\<rparr>)))"

text \<open>
  Lines 39-40 and 42-43: \<^verbatim>\<open>data[message_id] = data.get(message_id, {})\<close>, then the
  assignment of one key of the entry.
\<close>

definition empty_entry :: entry where
  "empty_entry = \<lparr>y_true = None, y_pred = None\<rparr>"

definition data_get :: "state \<Rightarrow> pykey \<Rightarrow> entry" where
  "data_get s k = (case data s k of None \<Rightarrow> empty_entry | Some e \<Rightarrow> e)"

definition store :: "string \<Rightarrow> pykey \<Rightarrow> pyval \<Rightarrow> state \<Rightarrow> state" where
  "store routing_key k v s =
     (if routing_key = ''y_true'' then s\<lparr>data := (data s)(k \<mapsto> (data_get s k)\<lparr>y_true := Some v\<rparr>)\<rparr>
      else if routing_key = ''y_pred'' then s\<lparr>data := (data s)(k \<mapsto> (data_get s k)\<lparr>y_pred := Some v\<rparr>)\<rparr>
      else s)"

text \<open>
  Lines 46-51. \<^verbatim>\<open>data[message_id]\<close> raises \<^verbatim>\<open>KeyError\<close> when the id has no entry. With
  both keys present the error \<^verbatim>\<open>abs(y_true - y_pred)\<close> is computed, logged to the CSV file
  and the entry deleted; an exception of the subtraction leaves the state as it is at
  that point.
  The result is the state and the exception raised, if any.
\<close>

definition abs_error :: "pyval \<Rightarrow> pyval \<Rightarrow> py_error + pyval" where
  "abs_error yt yp = (case py_sub yt yp of Inl err \<Rightarrow> Inl err | Inr d \<Rightarrow> py_abs d)"

definition correlate :: "pyval \<Rightarrow> pykey \<Rightarrow> state \<Rightarrow> state \<times> py_error option" where
  "correlate message_id k s =
     (case data s k of
        None \<Rightarrow> (s, Some KeyError)
      | Some e \<Rightarrow>
          (case (y_true e, y_pred e) of
             (Some yt, Some yp) \<Rightarrow>
               (case abs_error yt yp of
                  Inl err \<Rightarrow> (s, Some err)
                | Inr error \<Rightarrow>
                    (let s1 = log_error_to_csv message_id yt yp error s
                     in (s1\<lparr>data := (data s1)(k := None)\<rparr>, None)))
           | _ \<Rightarrow> (s, None)))"

text \<open>
  The outcome of \<^verbatim>\<open>json.loads(body)\<close> is the handler's input: the parsed value, or one
  of the exceptions the \<^verbatim>\<open>json\<close> module raises on a byte string (\<^verbatim>\<open>ValueError\<close> for an
  integer numeral beyond the digit limit).
\<close>

datatype loads_error = Invalid_json | Invalid_encoding | Nesting_too_deep | Numeral_too_long

fun loads_raises :: "loads_error \<Rightarrow> py_error" where
  "loads_raises Invalid_json = JSONDecodeError"
| "loads_raises Invalid_encoding = UnicodeDecodeError"
| "loads_raises Nesting_too_deep = RecursionError"
| "loads_raises Numeral_too_long = ValueError"

text \<open>Line 32: \<^verbatim>\<open>message.get('body') or message.get('prediction')\<close>.\<close>

definition message_value :: "pyval \<Rightarrow> py_error + pyval" where
  "message_value message =
     (case py_get message ''body'' of
        Inl e \<Rightarrow> Inl e
      | Inr b \<Rightarrow> if py_truthy b then Inr b else py_get message ''prediction'')"

text \<open>
  The \<^verbatim>\<open>try\<close> block of \<^verbatim>\<open>process_message\<close> (lines 24-51). The id is hashed where it
  is first used as a key of \<^verbatim>\<open>data\<close> (line 39, 42 or 46), in each case before anything
  is stored.
\<close>

definition try_block :: "string \<Rightarrow> loads_error + pyval \<Rightarrow> state \<Rightarrow> state \<times> py_error option" where
  "try_block routing_key loaded s =
     (case loaded of
        Inl e \<Rightarrow> (s, Some (loads_raises e))
      | Inr message \<Rightarrow>
          (case py_get message ''id'' of
             Inl e \<Rightarrow> (s, Some e)
           | Inr message_id \<Rightarrow>
               if \<not> py_truthy message_id then (logging (Warning_no_id message) s, None)
               else
                 (case message_value message of
                    Inl e \<Rightarrow> (s, Some e)
                  | Inr v \<Rightarrow>
                      if v = PNone then (logging (Warning_no_value message) s, None)
                      else
                        (case to_key message_id of
                           Inl e \<Rightarrow> (s, Some e)
                         | Inr k \<Rightarrow> correlate message_id k (store routing_key k v s)))))"

text \<open>
  \<^verbatim>\<open>process_message\<close> (lines 21-56): the \<^verbatim>\<open>try\<close> block with its two handlers,
  \<^verbatim>\<open>except json.JSONDecodeError\<close> and \<^verbatim>\<open>except Exception\<close>. An exception that neither
  clause matches leaves the function (\<open>Inl\<close>).
\<close>

definition process_message :: "string \<Rightarrow> loads_error + pyval \<Rightarrow> state \<Rightarrow> py_error + state" where
  "process_message routing_key loaded s =
     (case try_block routing_key loaded s of
        (s', None) \<Rightarrow> Inr s'
      | (s', Some e) \<Rightarrow>
          if e = JSONDecodeError then Inr (logging (Error_json_decode e) s')
          else if is_Exception e then Inr (logging (Error_processing e) s')
          else Inl e)"

text \<open>
  The consuming loop hands one message after the other to the handler; an exception
  leaving the handler would end it.
\<close>

fun consume :: "(string \<times> (loads_error + pyval)) list \<Rightarrow> state \<Rightarrow> py_error + state" where
  "consume [] s = Inr s"
| "consume ((routing_key, loaded) # ms) s =
     (case process_message routing_key loaded s of
        Inl e \<Rightarrow> Inl e
      | Inr s' \<Rightarrow> consume ms s')"

text \<open>The state at start-up: \<^verbatim>\<open>data = {}\<close>, nothing logged yet, any file system.\<close>

definition initial :: "filesystem \<Rightarrow> state" where
  "initial f = \<lparr>data = Map.empty, fs = f, logged = []\<rparr>"

section \<open>The Error Visualizer\<close>

text \<open>The file \<^verbatim>\<open>pd.read_csv\<close> is given (plot.py, line 9).\<close>

definition plot_csv_path :: string where
  "plot_csv_path = ''D:/lab/logs/metric_log.csv''"

text \<open>Splitting a text at every occurrence of a character.\<close>

fun split_on :: "char \<Rightarrow> string \<Rightarrow> string list" where
  "split_on c [] = [[]]"
| "split_on c (x # xs) =
     (if x = c then [] # split_on c xs
      else (x # hd (split_on c xs)) # tl (split_on c xs))"

text \<open>
  Modelled from the spec: the reader \<^verbatim>\<open>pd.read_csv(path, header=None)\<close> is a library
  call; the spec has the log as "append-only comma-separated rows
  id,ground_truth,prediction,absolute_error, no header, one record per completed
  correlation". The reader gives one row for each non-empty line of the file and one
  cell for each comma-separated field of the line; it raises when the file is missing
  (\<^verbatim>\<open>FileNotFoundError\<close>, an \<^verbatim>\<open>OSError\<close>) and when the file has no row
  (\<^verbatim>\<open>EmptyDataError\<close>, a \<^verbatim>\<open>ValueError\<close>).
\<close>

definition csv_lines :: "string \<Rightarrow> string list" where
  "csv_lines text = filter (\<lambda>l. l \<noteq> []) (split_on newline text)"

definition read_csv :: "filesystem \<Rightarrow> string \<Rightarrow> py_error + string list list" where
  "read_csv f path =
     (case files f path of
        None \<Rightarrow> Inl OSError
      | Some text \<Rightarrow>
          (case csv_lines text of
             [] \<Rightarrow> Inl ValueError
           | ls \<Rightarrow> Inr (map (split_on (CHR '','')) ls)))"

text \<open>
  Modelled from the spec: the rows are "parseable by the Visualizer into a numeric error
  column". A cell is read as a number the way a numeral is read: \<^verbatim>\<open>nan\<close>, \<^verbatim>\<open>inf\<close> and
  \<^verbatim>\<open>-inf\<close>; an optional minus sign and digits only as an int; digits with a fraction or
  an exponent as the float nearest to the decimal value.
\<close>

definition is_digit :: "char \<Rightarrow> bool" where
  "is_digit c = (c \<in> set ''0123456789'')"

definition digit_value :: "char \<Rightarrow> int" where
  "digit_value c = int (of_char c) - 48"

definition digits_value :: "string \<Rightarrow> int" where
  "digits_value ds = foldl (\<lambda>a c. 10 * a + digit_value c) 0 ds"

definition all_digits :: "string \<Rightarrow> bool" where
  "all_digits ds = (ds \<noteq> [] \<and> list_all is_digit ds)"

definition read_exponent :: "string \<Rightarrow> int option" where
  "read_exponent x =
     (case x of
        [] \<Rightarrow> None
      | c # ds \<Rightarrow>
          if c = CHR ''+'' then (if all_digits ds then Some (digits_value ds) else None)
          else if c = CHR ''-'' then (if all_digits ds then Some (- digits_value ds) else None)
          else if all_digits x then Some (digits_value x) else None)"

definition read_decimal :: "string \<Rightarrow> rat option" where
  "read_decimal t =
     (let m = takeWhile (\<lambda>c. c \<noteq> CHR ''e'') t;
          ip = takeWhile (\<lambda>c. c \<noteq> CHR ''.'') m;
          fp = drop (length ip + 1) m;
          ex = (if length m = length t then Some 0 else read_exponent (drop (length m + 1) t))
      in if all_digits ip \<and> list_all is_digit fp \<and> (length ip = length m \<or> fp \<noteq> [])
         then (case ex of
                 None \<Rightarrow> None
               | Some e \<Rightarrow> Some (of_int (digits_value (ip @ fp)) * pow10 (e - int (length fp))))
         else None)"

definition read_number :: "string \<Rightarrow> pyval option" where
  "read_number t =
     (if t = ''nan'' then Some (PFloat NaN)
      else if t = ''inf'' then Some (PFloat PosInf)
      else if t = ''-inf'' then Some (PFloat NegInf)
      else
        let neg = (t \<noteq> [] \<and> hd t = CHR ''-'');
            u = (if neg then tl t else t)
        in if all_digits u then Some (PInt (if neg then - digits_value u else digits_value u))
           else (case read_decimal u of
                   None \<Rightarrow> None
                 | Some v \<Rightarrow>
                     Some (PFloat (if neg then (if v = 0 then NegZero else round_double (- v))
                                   else round_double v))))"

text \<open>
  \<^verbatim>\<open>df.iloc[:, 3]\<close> (plot.py, line 15): the cells of a column, \<^verbatim>\<open>IndexError\<close> when the
  frame has no such column.
\<close>

definition column :: "nat \<Rightarrow> string list list \<Rightarrow> py_error + string list" where
  "column i df =
     (if list_ex (\<lambda>row. length row \<le> i) df then Inl IndexError
      else Inr (map (\<lambda>row. row ! i) df))"

text \<open>
  Modelled from the spec: the plot is "a histogram plus a kernel-density overlay" of the
  error column, rendered by library calls (lines 18-33); it is taken to need a number in
  every cell and to raise \<^verbatim>\<open>ValueError\<close> otherwise.
\<close>

definition render :: "string list \<Rightarrow> py_error + pyval list" where
  "render cells =
     (if list_all (\<lambda>t. read_number t \<noteq> None) cells then Inr (map (\<lambda>t. the (read_number t)) cells)
      else Inl ValueError)"

text \<open>
  One pass of the loop of plot.py (lines 7-39) on the outcome of the read: the \<^verbatim>\<open>try\<close>
  block takes the fourth column and plots it; \<^verbatim>\<open>except Exception\<close> prints the exception.
  Either way the loop sleeps and goes on; an exception that the clause does not match
  would leave the loop (\<open>Inl\<close>).
\<close>

datatype tick_report = Plotted "pyval list" | Printed py_error

definition visualizer_tick :: "py_error + string list list \<Rightarrow> py_error + tick_report" where
  "visualizer_tick read =
     (case (case read of
              Inl e \<Rightarrow> Inl e
            | Inr df \<Rightarrow> (case column 3 df of Inl e \<Rightarrow> Inl e | Inr cells \<Rightarrow> render cells)) of
        Inr numbers \<Rightarrow> Inr (Plotted numbers)
      | Inl e \<Rightarrow> if is_Exception e then Inr (Printed e) else Inl e)"

section \<open>The Feature Producer\<close>

text \<open>
  \<^verbatim>\<open>src/features/src/features.py\<close>. The dataset \<^verbatim>\<open>X, y\<close> comes from a library call and
  is a parameter here: the rows of \<^verbatim>\<open>X\<close> and the targets \<^verbatim>\<open>y\<close>. A call of
  \<^verbatim>\<open>channel.basic_publish\<close> is recorded with its arguments; \<^verbatim>\<open>body\<close> is the value that
  \<^verbatim>\<open>json.dumps\<close> serialises, \<^verbatim>\<open>delivery_mode\<close> the property that makes the message
  persistent.
\<close>

record published =
  exchange :: string
  routing_key :: string
  body :: pyval
  delivery_mode :: nat

text \<open>Lines 17-18: both queues are declared with \<^verbatim>\<open>durable=True\<close>.\<close>

definition declared_queues :: "(string \<times> bool) list" where
  "declared_queues = [(''y_true'', True), (''features'', True)]"

text \<open>
  \<^verbatim>\<open>np.random.randint(low, high)\<close> draws from the discrete uniform distribution on
  \<open>low, ..., high - 1\<close> and raises \<^verbatim>\<open>ValueError\<close> when that range is empty. Its result
  is kept as the list of the possible values, each with its probability.
\<close>

definition randint :: "nat \<Rightarrow> nat \<Rightarrow> py_error + (nat \<times> rat) list" where
  "randint low high =
     (if high \<le> low then Inl ValueError
      else Inr (map (\<lambda>i. (i, 1 / of_nat (high - low))) [low..<high]))"

text \<open>
  One pass of the loop body (lines 26-55) for the row drawn and the clock read: the two
  messages are built and published, the ground truth first. Indexing past the end of an
  array raises \<^verbatim>\<open>IndexError\<close>.
\<close>

definition tick ::
  "pyfloat list list \<Rightarrow> pyfloat list \<Rightarrow> nat \<Rightarrow> pyfloat \<Rightarrow> published list \<Rightarrow> py_error + published list"
where
  "tick X y random_row now channel =
     (if length y \<le> random_row \<or> length X \<le> random_row then Inl IndexError
      else
        let message_id = PFloat now;
            message_y_true = PDict [(''id'', message_id), (''body'', PFloat (y ! random_row))];
            message_features =
              PDict [(''id'', message_id), (''body'', PList (map PFloat (X ! random_row)))]
        in Inr (channel
                @ [\<lparr>exchange = [], routing_key = ''y_true'', body = message_y_true,
                     delivery_mode = 2\<rparr>]
                @ [\<lparr>exchange = [], routing_key = ''features'', body = message_features,
                     delivery_mode = 2\<rparr>]))"

text \<open>
  Lines 23-55: the row index is drawn with \<^verbatim>\<open>np.random.randint(0, X.shape[0])\<close>; every
  possible draw gives one outcome of the pass, with the probability of the draw.
\<close>

definition tick_outcomes ::
  "pyfloat list list \<Rightarrow> pyfloat list \<Rightarrow> pyfloat \<Rightarrow> published list
     \<Rightarrow> py_error + ((py_error + published list) \<times> rat) list"
where
  "tick_outcomes X y now channel =
     (case randint 0 (length X) of
        Inl e \<Rightarrow> Inl e
      | Inr draws \<Rightarrow> Inr (map (\<lambda>(random_row, p). (tick X y random_row now channel, p)) draws))"

section \<open>Notions the properties are stated with\<close>

text \<open>
  A malformed input: the body is not valid JSON, or the parsed value has no \<^verbatim>\<open>id\<close>, or
  it has neither \<^verbatim>\<open>body\<close> nor \<^verbatim>\<open>prediction\<close>. A parsed value that is not an object has
  no field at all.
\<close>

definition malformed :: "loads_error + pyval \<Rightarrow> bool" where
  "malformed loaded =
     (case loaded of
        Inl e \<Rightarrow> True
      | Inr (PDict kvs) \<Rightarrow>
          map_of kvs ''id'' = None
          \<or> (map_of kvs ''body'' = None \<and> map_of kvs ''prediction'' = None)
      | Inr _ \<Rightarrow> True)"

text \<open>A file system with no file yet, everything writable, for the examples.\<close>

definition f0 :: filesystem where
  "f0 = \<lparr>platform = Nt, files = Map.empty, unwritable = {}\<rparr>"

text \<open>
  The state the loop reaches on a list of messages. No exception leaves the handler,
  as shown below, so the second case never applies.
\<close>

definition run :: "(string \<times> (loads_error + pyval)) list \<Rightarrow> state \<Rightarrow> state" where
  "run ms s = (case consume ms s of Inr s' \<Rightarrow> s' | Inl e \<Rightarrow> s)"

text \<open>
  What the handler may change in the file system: nothing but the text of the one file
  it appends to.
\<close>

definition fs_frame :: "state \<Rightarrow> state \<Rightarrow> bool" where
  "fs_frame s s' =
     (platform (fs s') = platform (fs s) \<and> unwritable (fs s') = unwritable (fs s)
      \<and> (\<forall>q. q \<noteq> csv_path (platform (fs s)) \<longrightarrow> files (fs s') q = files (fs s) q))"

text \<open>
  What the handler extracts from an input that it does not reject: the id, the key the
  id is in \<^verbatim>\<open>data\<close>, and the value. \<open>None\<close> for an input that is dropped before anything
  is stored (lines 24-35, and an unhashable id).
\<close>

definition accepted :: "loads_error + pyval \<Rightarrow> (pyval \<times> pykey \<times> pyval) option" where
  "accepted loaded =
     (case loaded of
        Inl e \<Rightarrow> None
      | Inr message \<Rightarrow>
          (case (py_get message ''id'', message_value message) of
             (Inr message_id, Inr v) \<Rightarrow>
               (case to_key message_id of
                  Inr k \<Rightarrow>
                    if py_truthy message_id \<and> v \<noteq> PNone then Some (message_id, k, v) else None
                | Inl e \<Rightarrow> None)
           | _ \<Rightarrow> None))"

text \<open>A message addresses the key \<open>k\<close>; the value it carries.\<close>

definition for_key :: "pykey \<Rightarrow> string \<times> (loads_error + pyval) \<Rightarrow> bool" where
  "for_key k m = (case accepted (snd m) of Some (mid, k', v) \<Rightarrow> k' = k | None \<Rightarrow> False)"

definition value_of :: "string \<times> (loads_error + pyval) \<Rightarrow> pyval" where
  "value_of m = (case accepted (snd m) of Some (mid, k', v) \<Rightarrow> v | None \<Rightarrow> PNone)"

text \<open>The entry that holds one half only, the one of the given queue.\<close>

definition one_half :: "string \<Rightarrow> pyval \<Rightarrow> entry" where
  "one_half side v =
     (if side = ''y_true'' then \<lparr>y_true = Some v, y_pred = None\<rparr>
      else \<lparr>y_true = None, y_pred = Some v\<rparr>)"

text \<open>A state without the entry of \<open>k\<close>.\<close>

definition erase :: "pykey \<Rightarrow> state \<Rightarrow> state" where
  "erase k s = s\<lparr>data := (data s)(k := None)\<rparr>"

text \<open>
  The state after one ErrorRecord has been emitted: the row is at the end of the CSV
  file and the write is logged; nothing else differs.
\<close>

definition emit_record :: "pyval \<Rightarrow> pyval \<Rightarrow> string \<Rightarrow> state \<Rightarrow> state" where
  "emit_record message_id error row s =
     logging (Info_recorded message_id error)
       (s\<lparr>fs := (fs s)\<lparr>files := (files (fs s))(csv_path (platform (fs s)) \<mapsto>
          (case files (fs s) (csv_path (platform (fs s))) of None \<Rightarrow> [] | Some old \<Rightarrow> old)
            @ row)\<rparr>\<rparr>)"

text \<open>
  The invariant of the pending entries: an entry holds both halves only if computing
  their absolute error raises.
\<close>

definition pending_inv :: "state \<Rightarrow> bool" where
  "pending_inv s =
     (\<forall>k e yt yp. data s k = Some e \<longrightarrow> y_true e = Some yt \<longrightarrow> y_pred e = Some yp \<longrightarrow>
        (\<exists>err. abs_error yt yp = Inl err))"

text \<open>
  Example inputs. A ground truth \<^verbatim>\<open>{"id": 1000.0, "body": 42.0}\<close> answered by a
  prediction sent as a one-element list, \<^verbatim>\<open>{"id": 1000.0, "body": [40.5]}\<close>.
\<close>

definition stuck_pair :: "(string \<times> (loads_error + pyval)) list" where
  "stuck_pair =
     [(''y_true'', Inr (PDict [(''id'', PFloat (Fin 1000)), (''body'', PFloat (Fin 42))])),
      (''y_pred'', Inr (PDict [(''id'', PFloat (Fin 1000)),
                               (''body'', PList [PFloat (Fin (81 / 2))])]))]"

text \<open>
  The example of the specification: \<^verbatim>\<open>{"id": 1000.0, "body": 42.0}\<close> on \<^verbatim>\<open>y_true\<close>, then
  \<^verbatim>\<open>{"id": 1000.0, "prediction": 40.5}\<close> on \<^verbatim>\<open>y_pred\<close>.
\<close>

definition spec_example :: "(string \<times> (loads_error + pyval)) list" where
  "spec_example =
     [(''y_true'', Inr (PDict [(''id'', PFloat (Fin 1000)), (''body'', PFloat (Fin 42))])),
      (''y_pred'', Inr (PDict [(''id'', PFloat (Fin 1000)),
                               (''prediction'', PFloat (Fin (81 / 2)))]))]"

text \<open>A ground truth whose prediction never comes, among messages for another id.\<close>

definition lone_truth :: "(string \<times> (loads_error + pyval)) list" where
  "lone_truth =
     [(''y_true'', Inr (PDict [(''id'', PFloat (Fin 1000)), (''body'', PFloat (Fin 42))])),
      (''y_pred'', Inr (PDict [(''id'', PInt 7), (''body'', PInt 3)]))]"


text \<open>A dataset of two rows.\<close>

definition X0 :: "pyfloat list list" where
  "X0 = [[Fin 1, Fin 2], [Fin 3, Fin 4]]"

definition y0 :: "pyfloat list" where
  "y0 = [Fin 151, Fin 75]"


section \<open>Properties of the handler\<close>

subsection \<open>Which exceptions the \<^verbatim>\<open>try\<close> block raises\<close>

lemma py_get_raises: "py_get m k = Inl e \<Longrightarrow> e = AttributeError"
  by (cases m) auto

lemma message_value_raises: "message_value m = Inl e \<Longrightarrow> e = AttributeError"
  by (auto simp: message_value_def split: sum.splits if_splits dest: py_get_raises)

lemma to_key_raises: "to_key v = Inl e \<Longrightarrow> e = TypeError"
  by (induction v rule: to_key.induct) auto

lemma int_to_float_raises: "int_to_float i = Inl e \<Longrightarrow> e = OverflowError"
  by (auto simp: int_to_float_def split: pyfloat.splits)

lemma num_sub_raises: "num_sub x y = Inl e \<Longrightarrow> e = OverflowError"
  by (induction x y rule: num_sub.induct)
     (auto split: sum.splits dest: int_to_float_raises)

lemma py_sub_raises: "py_sub a b = Inl e \<Longrightarrow> e = TypeError \<or> e = OverflowError"
  by (auto simp: py_sub_def split: option.splits dest: num_sub_raises)

lemma py_abs_raises: "py_abs d = Inl e \<Longrightarrow> e = TypeError"
  by (cases d) auto

lemma abs_error_raises: "abs_error a b = Inl e \<Longrightarrow> e = TypeError \<or> e = OverflowError"
  by (auto simp: abs_error_def split: sum.splits dest: py_sub_raises py_abs_raises)

lemma correlate_raises:
  "correlate mid k s = (s', Some e) \<Longrightarrow> e = KeyError \<or> e = TypeError \<or> e = OverflowError"
  by (auto simp: correlate_def Let_def split: option.splits sum.splits dest: abs_error_raises)

lemma loads_raises_Exception: "is_Exception (loads_raises e)"
  by (cases e) auto

lemma try_block_raises: "try_block rk loaded s = (s', Some e) \<Longrightarrow> is_Exception e"
  by (auto simp: try_block_def loads_raises_Exception
           split: sum.splits if_splits
           dest!: py_get_raises message_value_raises to_key_raises correlate_raises)

lemma process_message_returns: "\<exists>s'. process_message rk loaded s = Inr s'"
proof (cases "try_block rk loaded s")
  case (Pair s' r)
  then show ?thesis
    by (cases r) (auto simp: process_message_def dest: try_block_raises)
qed

lemma consume_returns: "\<exists>s'. consume ms s = Inr s'"
proof (induction ms arbitrary: s)
  case Nil
  show ?case by simp
next
  case (Cons m ms)
  obtain rk loaded where m: "m = (rk, loaded)" by (cases m)
  obtain s1 where "process_message rk loaded s = Inr s1"
    using process_message_returns by blast
  with Cons.IH [of s1] m show ?case by simp
qed

text \<open>
  C4. For every routing key, every outcome of parsing the body and every state, the
  handler returns a state: no exception leaves it. Hence the consuming loop gets through
  every list of messages, whatever they are.
\<close>

theorem handler_total:
  "(\<exists>s'. process_message rk loaded s = Inr s') \<and> (\<exists>s'. consume ms s = Inr s')"
  using process_message_returns consume_returns by blast

lemma consume_run: "consume ms s = Inr (run ms s)"
  using consume_returns [of ms s] by (auto simp: run_def)

subsection \<open>Malformed and falsy input\<close>

lemma logging_simps [simp]:
  "data (logging r s) = data s" "fs (logging r s) = fs s" "logged (logging r s) = logged s @ [r]"
  by (simp_all add: logging_def)

lemma process_message_malformed:
  assumes "malformed loaded"
  shows "\<exists>r. process_message rk loaded s = Inr (logging r s)"
proof (cases loaded)
  case (Inl e)
  then show ?thesis
    by (cases e) (auto simp: process_message_def try_block_def)
next
  case (Inr m)
  show ?thesis
  proof (cases m)
    case (PDict kvs)
    with assms Inr show ?thesis
      by (auto simp: malformed_def process_message_def try_block_def message_value_def
            dict_get_def)
  qed (use Inr in \<open>auto simp: process_message_def try_block_def\<close>)
qed

text \<open>
  C3. A malformed input (invalid JSON, no \<^verbatim>\<open>id\<close>, or neither \<^verbatim>\<open>body\<close> nor
  \<^verbatim>\<open>prediction\<close>) makes the handler return normally with the pending entries and the
  file system, hence the CSV log, exactly as before; one record is logged.
\<close>

theorem malformed_discarded:
  assumes "malformed loaded"
  shows "\<exists>s' r. process_message rk loaded s = Inr s' \<and> data s' = data s \<and> fs s' = fs s
           \<and> logged s' = logged s @ [r]"
proof -
  obtain r where "process_message rk loaded s = Inr (logging r s)"
    using process_message_malformed [OF assms] by blast
  then show ?thesis by auto
qed

theorem malformed_discarded_witness:
  "malformed (Inr (PDict [(''id'', PInt 7)])) \<and> malformed (Inl Invalid_json)
   \<and> malformed (Inr (PDict [(''body'', PInt 7)]))
   \<and> (\<exists>s' r. process_message ''y_true'' (Inr (PDict [(''id'', PInt 7)])) (initial f0) = Inr s'
          \<and> data s' = data (initial f0) \<and> fs s' = fs (initial f0)
          \<and> logged s' = logged (initial f0) @ [r])"
proof -
  have m: "malformed (Inr (PDict [(''id'', PInt 7)]))" by (simp add: malformed_def)
  show ?thesis
    using m malformed_discarded [OF m, of "''y_true''" "initial f0"]
    by (simp add: malformed_def)
qed

text \<open>
  C9. A message whose \<^verbatim>\<open>id\<close> is \<^verbatim>\<open>0\<close> or \<^verbatim>\<open>0.0\<close> is logged as having no id and
  discarded; one whose \<^verbatim>\<open>body\<close> is \<^verbatim>\<open>0\<close> or \<^verbatim>\<open>0.0\<close> and that has no \<^verbatim>\<open>prediction\<close> is
  logged as having no value (or no id, when the id is falsy too) and discarded. In both
  cases the state changes by that one warning only: no entry is touched, nothing is
  written. A truthy \<^verbatim>\<open>body\<close> is the value the handler takes, whatever \<^verbatim>\<open>prediction\<close> holds.
\<close>

theorem falsy_fields_discarded:
  "(dict_get kvs ''id'' \<in> {PInt 0, PFloat (Fin 0)} \<longrightarrow>
      process_message rk (Inr (PDict kvs)) s = Inr (logging (Warning_no_id (PDict kvs)) s))
   \<and> (dict_get kvs ''body'' \<in> {PInt 0, PFloat (Fin 0)} \<and> map_of kvs ''prediction'' = None \<longrightarrow>
      process_message rk (Inr (PDict kvs)) s =
        Inr (logging (if py_truthy (dict_get kvs ''id'') then Warning_no_value (PDict kvs)
                      else Warning_no_id (PDict kvs)) s))
   \<and> (py_truthy (dict_get kvs ''body'') \<longrightarrow>
      message_value (PDict kvs) = Inr (dict_get kvs ''body''))"
  by (auto simp: process_message_def try_block_def message_value_def dict_get_def)

theorem falsy_fields_discarded_witness:
  "process_message ''y_true'' (Inr (PDict [(''id'', PInt 0), (''body'', PFloat (Fin 42))])) (initial f0)
     = Inr (logging (Warning_no_id (PDict [(''id'', PInt 0), (''body'', PFloat (Fin 42))])) (initial f0))
   \<and> process_message ''y_true'' (Inr (PDict [(''id'', PInt 7), (''body'', PFloat (Fin 0))])) (initial f0)
     = Inr (logging (Warning_no_value (PDict [(''id'', PInt 7), (''body'', PFloat (Fin 0))])) (initial f0))
   \<and> message_value (PDict [(''id'', PInt 7), (''body'', PInt 3), (''prediction'', PInt 4)])
     = Inr (PInt 3)"
  using falsy_fields_discarded [of "[(''id'', PInt 0), (''body'', PFloat (Fin 42))]" "''y_true''" "initial f0"]
    falsy_fields_discarded [of "[(''id'', PInt 7), (''body'', PFloat (Fin 0))]" "''y_true''" "initial f0"]
    falsy_fields_discarded [of "[(''id'', PInt 7), (''body'', PInt 3), (''prediction'', PInt 4)]"]
  by (simp add: dict_get_def)

subsection \<open>The files the handler touches\<close>

lemma csv_path_differs: "csv_path pf \<noteq> plot_csv_path"
  by (cases pf)
     (simp_all add: csv_path_def plot_csv_path_def log_dir_def posix_join_def nt_join_def
        drive_of_def nt_sep_def backslash_def Let_def)

lemma fs_frame_refl [simp]: "fs_frame s s"
  by (simp add: fs_frame_def)

lemma fs_frame_trans: "fs_frame s t \<Longrightarrow> fs_frame t u \<Longrightarrow> fs_frame s u"
  by (simp add: fs_frame_def)

lemma fs_frame_fs_eq: "fs t = fs s \<Longrightarrow> fs_frame s t"
  by (simp add: fs_frame_def)

lemma log_error_to_csv_frame: "fs_frame s (log_error_to_csv i a b e s)"
  by (simp add: log_error_to_csv_def open_append_def write_text_def fs_frame_def
        split: sum.splits)

lemma log_error_to_csv_data [simp]: "data (log_error_to_csv i a b e s) = data s"
  by (simp add: log_error_to_csv_def split: sum.splits)

lemma store_fs [simp]: "fs (store rk k v s) = fs s"
  by (simp add: store_def)

lemma correlate_frame: "fs_frame s (fst (correlate i k s))"
proof -
  have "fs_frame s ((log_error_to_csv i a b e s)\<lparr>data := d\<rparr>)" for a b e d
    using log_error_to_csv_frame [of s i a b e] by (simp add: fs_frame_def)
  then show ?thesis
    by (simp add: correlate_def Let_def split: option.splits sum.splits)
qed

lemma try_block_frame: "fs_frame s (fst (try_block rk loaded s))"
proof -
  have "fs_frame s (fst (correlate i k (store rk k v s)))" for i k v
    using correlate_frame [of "store rk k v s" i k] by (simp add: fs_frame_def)
  then show ?thesis
    by (simp add: try_block_def fs_frame_fs_eq split: sum.splits)
qed

lemma process_message_frame:
  assumes "process_message rk loaded s = Inr s'"
  shows "fs_frame s s'"
proof (cases "try_block rk loaded s")
  case (Pair t r)
  with try_block_frame [of s rk loaded] have "fs_frame s t" by simp
  moreover from assms Pair have "fs s' = fs t"
    by (cases r) (auto simp: process_message_def split: if_splits)
  ultimately show ?thesis by (simp add: fs_frame_def)
qed

lemma consume_frame: "consume ms s = Inr s' \<Longrightarrow> fs_frame s s'"
proof (induction ms arbitrary: s)
  case Nil
  then show ?case by simp
next
  case (Cons m ms)
  obtain rk loaded where m: "m = (rk, loaded)" by (cases m)
  from Cons.prems m obtain s1 where s1: "process_message rk loaded s = Inr s1"
    and rest: "consume ms s1 = Inr s'"
    by (auto split: sum.splits)
  from process_message_frame [OF s1] Cons.IH [OF rest] show ?case
    by (rule fs_frame_trans)
qed

text \<open>
  C10. On either platform the path the Correlator appends to,
  \<^verbatim>\<open>os.path.join('D:/lab/logs/logs', 'metric_log.csv')\<close>, is not the path
  \<^verbatim>\<open>'D:/lab/logs/metric_log.csv'\<close> the Visualizer reads; and whatever messages the
  Correlator processes, the file at the Visualizer's path stays as it was.
\<close>

theorem visualizer_reads_another_file:
  "csv_path pf \<noteq> plot_csv_path
   \<and> files (fs (run ms s)) plot_csv_path = files (fs s) plot_csv_path"
proof -
  have "fs_frame s (run ms s)"
    using consume_frame [OF consume_run] .
  moreover have "plot_csv_path \<noteq> csv_path (platform (fs s))"
    using csv_path_differs [of "platform (fs s)"] by simp
  ultimately show ?thesis
    using csv_path_differs [of pf] by (simp add: fs_frame_def)
qed

subsection \<open>Accepted messages and the pending entries\<close>

lemma process_message_not_accepted:
  assumes "accepted loaded = None"
  shows "\<exists>r. process_message rk loaded s = Inr (logging r s)"
proof (cases loaded)
  case (Inl e)
  then show ?thesis
    by (cases e) (auto simp: process_message_def try_block_def)
next
  case (Inr m)
  with assms show ?thesis
    by (auto simp: accepted_def process_message_def try_block_def
          split: sum.splits if_splits dest: py_get_raises message_value_raises to_key_raises)
qed

lemma process_message_accepted:
  assumes "accepted loaded = Some (mid, k, v)"
  shows "process_message rk loaded s =
           (case correlate mid k (store rk k v s) of
              (s', None) \<Rightarrow> Inr s'
            | (s', Some e) \<Rightarrow> Inr (logging (Error_processing e) s'))"
proof -
  from assms obtain m where m: "loaded = Inr m" "py_get m ''id'' = Inr mid"
      "message_value m = Inr v" "to_key mid = Inr k" "py_truthy mid" "v \<noteq> PNone"
    by (auto simp: accepted_def split: sum.splits if_splits)
  obtain s' r where c: "correlate mid k (store rk k v s) = (s', r)"
    by (cases "correlate mid k (store rk k v s)")
  show ?thesis
  proof (cases r)
    case None
    with m c show ?thesis by (simp add: process_message_def try_block_def)
  next
    case (Some e)
    with c have "e = KeyError \<or> e = TypeError \<or> e = OverflowError"
      using correlate_raises by blast
    with m c Some show ?thesis by (auto simp: process_message_def try_block_def)
  qed
qed

lemma correlate_data:
  "data (fst (correlate mid k s)) =
     (case data s k of
        None \<Rightarrow> data s
      | Some e \<Rightarrow>
          (case (y_true e, y_pred e) of
             (Some yt, Some yp) \<Rightarrow>
               (case abs_error yt yp of Inl err \<Rightarrow> data s | Inr error \<Rightarrow> (data s)(k := None))
           | _ \<Rightarrow> data s))"
  by (simp add: correlate_def Let_def split: option.splits sum.splits)

lemma correlate_inv:
  assumes "\<And>k' e yt yp. k' \<noteq> k \<Longrightarrow> data s k' = Some e \<Longrightarrow> y_true e = Some yt \<Longrightarrow>
             y_pred e = Some yp \<Longrightarrow> \<exists>err. abs_error yt yp = Inl err"
  shows "pending_inv (fst (correlate mid k s))"
  unfolding pending_inv_def correlate_data
proof (intro allI impI)
  fix k' e yt yp
  assume h: "(case data s k of
           None \<Rightarrow> data s
         | Some e \<Rightarrow>
             (case (y_true e, y_pred e) of
                (Some yt, Some yp) \<Rightarrow>
                  (case abs_error yt yp of Inl err \<Rightarrow> data s | Inr error \<Rightarrow> (data s)(k := None))
              | _ \<Rightarrow> data s)) k' = Some e"
    and t: "y_true e = Some yt" and p: "y_pred e = Some yp"
  show "\<exists>err. abs_error yt yp = Inl err"
  proof (cases "k' = k")
    case False
    with h have "data s k' = Some e"
      by (auto split: option.splits sum.splits)
    with assms False t p show ?thesis by blast
  next
    case True
    with h t p show ?thesis
      by (cases "abs_error yt yp") (auto split: option.splits sum.splits)
  qed
qed

lemma store_other: "k' \<noteq> k \<Longrightarrow> data (store rk k v s) k' = data s k'"
  by (simp add: store_def)

lemma process_message_inv:
  assumes "pending_inv s" "process_message rk loaded s = Inr s'"
  shows "pending_inv s'"
proof (cases "accepted loaded")
  case None
  then obtain r where "process_message rk loaded s = Inr (logging r s)"
    using process_message_not_accepted by blast
  with assms show ?thesis by (auto simp: pending_inv_def)
next
  case (Some a)
  obtain mid k v where a: "a = (mid, k, v)" by (cases a)
  obtain t r where c: "correlate mid k (store rk k v s) = (t, r)"
    by (cases "correlate mid k (store rk k v s)")
  have "pending_inv (fst (correlate mid k (store rk k v s)))"
    using assms(1) by (intro correlate_inv) (auto simp: store_other pending_inv_def)
  with c have "pending_inv t" by simp
  moreover from Some a c assms(2) have "data s' = data t"
    using process_message_accepted [of loaded mid k v rk s]
    by (cases r) auto
  ultimately show ?thesis by (simp add: pending_inv_def)
qed

lemma consume_inv: "pending_inv s \<Longrightarrow> consume ms s = Inr s' \<Longrightarrow> pending_inv s'"
proof (induction ms arbitrary: s)
  case Nil
  then show ?case by simp
next
  case (Cons m ms)
  obtain rk loaded where m: "m = (rk, loaded)" by (cases m)
  from Cons.prems m obtain s1 where s1: "process_message rk loaded s = Inr s1"
    and rest: "consume ms s1 = Inr s'"
    by (auto split: sum.splits)
  from process_message_inv [OF Cons.prems(1) s1] rest show ?case
    by (rule Cons.IH)
qed

lemma initial_inv: "pending_inv (initial f)"
  by (simp add: pending_inv_def initial_def)

lemma stuck_pair_pending:
  "data (run stuck_pair (initial f0)) (KNum 1000)
     = Some \<lparr>y_true = Some (PFloat (Fin 42)), y_pred = Some (PList [PFloat (Fin (81 / 2))])\<rparr>"
  by (simp add: run_def stuck_pair_def initial_def process_message_def try_block_def
        message_value_def dict_get_def store_def data_get_def empty_entry_def correlate_def
        abs_error_def py_sub_def logging_def)

subsection \<open>Messages for other ids do not interfere\<close>

lemma run_Nil [simp]: "run [] s = s"
  by (simp add: run_def)

lemma run_Cons:
  "process_message rk loaded s = Inr s1 \<Longrightarrow> run ((rk, loaded) # ms) s = run ms s1"
  using consume_returns [of ms s1] by (auto simp: run_def)

lemma process_message_rejects:
  assumes "accepted loaded = None"
  shows "\<exists>r. \<forall>s. process_message rk loaded s = Inr (logging r s)"
proof (cases loaded)
  case (Inl e)
  then show ?thesis
    by (cases e) (auto simp: process_message_def try_block_def)
next
  case (Inr m)
  show ?thesis
  proof (cases "py_get m ''id''")
    case (Inl e)
    then have "e = AttributeError" by (rule py_get_raises)
    with Inl Inr show ?thesis
      by (intro exI [of _ "Error_processing AttributeError"])
         (simp add: process_message_def try_block_def)
  next
    case mid: (Inr mid)
    show ?thesis
    proof (cases "py_truthy mid")
      case False
      with mid Inr show ?thesis
        by (intro exI [of _ "Warning_no_id m"]) (simp add: process_message_def try_block_def)
    next
      case True
      show ?thesis
      proof (cases "message_value m")
        case (Inl e)
        then have "e = AttributeError" by (rule message_value_raises)
        with Inl Inr mid True show ?thesis
          by (intro exI [of _ "Error_processing AttributeError"])
             (simp add: process_message_def try_block_def)
      next
        case v: (Inr v)
        show ?thesis
        proof (cases "v = PNone")
          case True
          with v Inr mid \<open>py_truthy mid\<close> show ?thesis
            by (intro exI [of _ "Warning_no_value m"])
               (simp add: process_message_def try_block_def)
        next
          case False
          show ?thesis
          proof (cases "to_key mid")
            case (Inl e)
            then have "e = TypeError" by (rule to_key_raises)
            with Inl v Inr mid False \<open>py_truthy mid\<close> show ?thesis
              by (intro exI [of _ "Error_processing TypeError"])
                 (simp add: process_message_def try_block_def)
          next
            case (Inr k)
            with assms v mid False \<open>py_truthy mid\<close> \<open>loaded = Inr m\<close> show ?thesis
              by (simp add: accepted_def)
          qed
        qed
      qed
    qed
  qed
qed

lemma erase_logging: "erase k (logging r s) = logging r (erase k s)"
  by (simp add: erase_def logging_def)

lemma log_error_to_csv_data_update:
  "log_error_to_csv mid yt yp err (s\<lparr>data := d\<rparr>) = (log_error_to_csv mid yt yp err s)\<lparr>data := d\<rparr>"
  by (simp add: log_error_to_csv_def logging_def split: sum.splits)

lemma store_erase: "k' \<noteq> k \<Longrightarrow> store rk k' v (erase k s) = erase k (store rk k' v s)"
  by (auto simp: store_def erase_def data_get_def fun_upd_twist)

lemma correlate_erase:
  assumes "k' \<noteq> k"
  shows "correlate mid k' (erase k s) = (erase k (fst (correlate mid k' s)), snd (correlate mid k' s))"
  using assms
  by (auto simp: correlate_def erase_def Let_def log_error_to_csv_data_update fun_upd_twist
        split: option.splits sum.splits)

lemma process_message_erase:
  assumes "\<not> for_key k (rk, loaded)" "process_message rk loaded s = Inr s'"
  shows "process_message rk loaded (erase k s) = Inr (erase k s') \<and> data s' k = data s k"
proof (cases "accepted loaded")
  case None
  then obtain r where r: "\<forall>s. process_message rk loaded s = Inr (logging r s)"
    using process_message_rejects by blast
  with assms(2) have "s' = logging r s" by simp
  with r show ?thesis by (simp add: erase_logging)
next
  case (Some a)
  obtain mid k' v where a: "a = (mid, k', v)" by (cases a)
  with Some assms(1) have ne: "k' \<noteq> k" by (simp add: for_key_def)
  note acc = Some [unfolded a]
  obtain t r where c: "correlate mid k' (store rk k' v s) = (t, r)"
    by (cases "correlate mid k' (store rk k' v s)")
  have c': "correlate mid k' (store rk k' v (erase k s)) = (erase k t, r)"
    using correlate_erase [OF ne, of mid "store rk k' v s"] c by (simp add: store_erase [OF ne])
  have dk: "data t k = data s k"
    using c ne correlate_data [of mid k' "store rk k' v s"]
    by (auto simp: store_other split: option.splits sum.splits)
  show ?thesis
  proof (cases r)
    case None
    with c c' assms(2) dk show ?thesis
      using process_message_accepted [OF acc, of rk s]
        process_message_accepted [OF acc, of rk "erase k s"] by auto
  next
    case (Some e)
    with c c' assms(2) dk show ?thesis
      using process_message_accepted [OF acc, of rk s]
        process_message_accepted [OF acc, of rk "erase k s"] by (auto simp: erase_logging)
  qed
qed

lemma process_message_one_side:
  assumes "accepted loaded = Some (mid, k, v)" "side = ''y_true'' \<or> side = ''y_pred''"
    and "data s k = None \<or> (\<exists>w. data s k = Some (one_half side w))"
  shows "process_message side loaded s = Inr (s\<lparr>data := (data s)(k \<mapsto> one_half side v)\<rparr>)"
proof -
  have st: "store side k v s = s\<lparr>data := (data s)(k \<mapsto> one_half side v)\<rparr>"
    using assms(2,3) by (auto simp: store_def data_get_def empty_entry_def one_half_def)
  have "correlate mid k (s\<lparr>data := (data s)(k \<mapsto> one_half side v)\<rparr>)
          = (s\<lparr>data := (data s)(k \<mapsto> one_half side v)\<rparr>, None)"
    by (simp add: correlate_def one_half_def)
  with st show ?thesis
    using process_message_accepted [OF assms(1), of side s] by simp
qed

lemma erase_update: "erase k (s\<lparr>data := (data s)(k \<mapsto> e)\<rparr>) = erase k s"
  by (simp add: erase_def)

lemma one_sided_run:
  assumes "side = ''y_true'' \<or> side = ''y_pred''"
    and "\<forall>m \<in> set ms. for_key k m \<longrightarrow> fst m = side"
    and "data s k = None \<or> (\<exists>w. data s k = Some (one_half side w))"
  shows "run (filter (\<lambda>m. \<not> for_key k m) ms) (erase k s) = erase k (run ms s)
       \<and> data (run ms s) k =
           (case filter (for_key k) ms of [] \<Rightarrow> data s k
            | m # ms' \<Rightarrow> Some (one_half side (value_of (last (m # ms')))))"
  using assms(2,3)
proof (induction ms arbitrary: s)
  case Nil
  then show ?case by simp
next
  case (Cons m ms)
  obtain rk loaded where m: "m = (rk, loaded)" by (cases m)
  obtain s1 where s1: "process_message rk loaded s = Inr s1"
    using process_message_returns by blast
  have run_s: "run (m # ms) s = run ms s1"
    using m run_Cons [OF s1] by simp
  show ?case
  proof (cases "for_key k m")
    case True
    with Cons.prems(1) m have rk: "rk = side" by auto
    from True m obtain mid v where acc: "accepted loaded = Some (mid, k, v)"
      by (auto simp: for_key_def split: option.splits)
    then have v: "value_of m = v" using m by (simp add: value_of_def)
    have s1': "s1 = s\<lparr>data := (data s)(k \<mapsto> one_half side v)\<rparr>"
      using process_message_one_side [OF acc assms(1) Cons.prems(2)] s1 rk by simp
    have side1: "data s1 k = None \<or> (\<exists>w. data s1 k = Some (one_half side w))"
      using s1' by auto
    have only: "\<forall>m \<in> set ms. for_key k m \<longrightarrow> fst m = side"
      using Cons.prems(1) by simp
    note IH = Cons.IH [OF only side1]
    have e: "erase k s1 = erase k s" using s1' by (simp add: erase_update)
    show ?thesis
      using IH True e run_s v s1'
      by (auto split: list.splits)
  next
    case False
    with m have nf: "\<not> for_key k (rk, loaded)" by simp
    from process_message_erase [OF nf s1]
    have pe: "process_message rk loaded (erase k s) = Inr (erase k s1)"
      and dk: "data s1 k = data s k" by auto
    have side1: "data s1 k = None \<or> (\<exists>w. data s1 k = Some (one_half side w))"
      using dk Cons.prems(2) by simp
    have only: "\<forall>m \<in> set ms. for_key k m \<longrightarrow> fst m = side"
      using Cons.prems(1) by simp
    note IH = Cons.IH [OF only side1]
    have "run (filter (\<lambda>m. \<not> for_key k m) (m # ms)) (erase k s)
            = run (filter (\<lambda>m. \<not> for_key k m) ms) (erase k s1)"
      using False m run_Cons [OF pe] by simp
    with IH False run_s dk show ?thesis by (auto split: list.splits)
  qed
qed

subsection \<open>A pair of messages for a fresh id\<close>

lemma log_error_to_csv_writable:
  assumes "csv_path (platform (fs s)) \<notin> unwritable (fs s)"
    and "csv_row mid yt yp err = Inr row"
  shows "log_error_to_csv mid yt yp err s = emit_record mid err row s"
  using assms
  by (simp add: log_error_to_csv_def open_append_def write_text_def file_text_def
        emit_record_def)


lemma emit_record_fields [simp]:
  "data (emit_record mid err row s) = data s"
  "platform (fs (emit_record mid err row s)) = platform (fs s)"
  "unwritable (fs (emit_record mid err row s)) = unwritable (fs s)"
  by (simp_all add: emit_record_def)

lemma emit_record_data_update:
  "emit_record mid err row (s\<lparr>data := d\<rparr>) = (emit_record mid err row s)\<lparr>data := d\<rparr>"
  by (simp add: emit_record_def logging_def)

lemma pair_true_first:
  assumes "data s k = None" "abs_error gt pr = Inr err" "csv_row mid gt pr err = Inr row"
    "csv_path (platform (fs s)) \<notin> unwritable (fs s)"
  shows "fst (correlate mid k (store ''y_pred'' k pr (fst (correlate mid k (store ''y_true'' k gt s)))))
           = emit_record mid err row s"
    and "snd (correlate mid k (store ''y_pred'' k pr (fst (correlate mid k (store ''y_true'' k gt s))))) = None"
    and "snd (correlate mid k (store ''y_true'' k gt s)) = None"
proof -
  let ?s1 = "s\<lparr>data := (data s)(k \<mapsto> \<lparr>y_true = Some gt, y_pred = None\<rparr>)\<rparr>"
  let ?s2 = "s\<lparr>data := (data s)(k \<mapsto> \<lparr>y_true = Some gt, y_pred = Some pr\<rparr>)\<rparr>"
  have st1: "store ''y_true'' k gt s = ?s1"
    using assms(1) by (simp add: store_def data_get_def empty_entry_def)
  have c1: "correlate mid k ?s1 = (?s1, None)"
    by (simp add: correlate_def)
  have st2: "store ''y_pred'' k pr ?s1 = ?s2"
    by (simp add: store_def data_get_def)
  have d: "(data s)(k := None) = data s"
    using assms(1) by (simp add: fun_upd_idem)
  have w: "log_error_to_csv mid gt pr err ?s2 = emit_record mid err row ?s2"
    using assms(3,4) by (intro log_error_to_csv_writable) simp_all
  have c2: "correlate mid k ?s2 = (emit_record mid err row s, None)"
    using assms(2) d
    by (simp add: correlate_def Let_def w emit_record_data_update)
  show "fst (correlate mid k (store ''y_pred'' k pr (fst (correlate mid k (store ''y_true'' k gt s)))))
           = emit_record mid err row s"
    by (simp add: st1 c1 st2 c2)
  show "snd (correlate mid k (store ''y_pred'' k pr (fst (correlate mid k (store ''y_true'' k gt s))))) = None"
    by (simp add: st1 c1 st2 c2)
  show "snd (correlate mid k (store ''y_true'' k gt s)) = None"
    by (simp add: st1 c1)
qed

lemma pair_pred_first:
  assumes "data s k = None" "abs_error gt pr = Inr err" "csv_row mid gt pr err = Inr row"
    "csv_path (platform (fs s)) \<notin> unwritable (fs s)"
  shows "fst (correlate mid k (store ''y_true'' k gt (fst (correlate mid k (store ''y_pred'' k pr s)))))
           = emit_record mid err row s"
    and "snd (correlate mid k (store ''y_true'' k gt (fst (correlate mid k (store ''y_pred'' k pr s))))) = None"
    and "snd (correlate mid k (store ''y_pred'' k pr s)) = None"
proof -
  let ?s1 = "s\<lparr>data := (data s)(k \<mapsto> \<lparr>y_true = None, y_pred = Some pr\<rparr>)\<rparr>"
  let ?s2 = "s\<lparr>data := (data s)(k \<mapsto> \<lparr>y_true = Some gt, y_pred = Some pr\<rparr>)\<rparr>"
  have st1: "store ''y_pred'' k pr s = ?s1"
    using assms(1) by (simp add: store_def data_get_def empty_entry_def)
  have c1: "correlate mid k ?s1 = (?s1, None)"
    by (simp add: correlate_def)
  have st2: "store ''y_true'' k gt ?s1 = ?s2"
    by (simp add: store_def data_get_def)
  have d: "(data s)(k := None) = data s"
    using assms(1) by (simp add: fun_upd_idem)
  have w: "log_error_to_csv mid gt pr err ?s2 = emit_record mid err row ?s2"
    using assms(3,4) by (intro log_error_to_csv_writable) simp_all
  have c2: "correlate mid k ?s2 = (emit_record mid err row s, None)"
    using assms(2) d
    by (simp add: correlate_def Let_def w emit_record_data_update)
  show "fst (correlate mid k (store ''y_true'' k gt (fst (correlate mid k (store ''y_pred'' k pr s)))))
           = emit_record mid err row s"
    by (simp add: st1 c1 st2 c2)
  show "snd (correlate mid k (store ''y_true'' k gt (fst (correlate mid k (store ''y_pred'' k pr s))))) = None"
    by (simp add: st1 c1 st2 c2)
  show "snd (correlate mid k (store ''y_pred'' k pr s)) = None"
    by (simp add: st1 c1)
qed

lemma process_message_accepted_ok:
  assumes "accepted loaded = Some (mid, k, v)" "snd (correlate mid k (store rk k v s)) = None"
  shows "process_message rk loaded s = Inr (fst (correlate mid k (store rk k v s)))"
  using process_message_accepted [OF assms(1), of rk s] assms(2)
  by (cases "correlate mid k (store rk k v s)") auto

lemma pair_run:
  assumes at: "accepted mt = Some (mid, k, gt)" and ap: "accepted mp = Some (mid, k, pr)"
    and err: "abs_error gt pr = Inr err" and row: "csv_row mid gt pr err = Inr row"
    and fresh: "data s k = None"
    and writable: "csv_path (platform (fs s)) \<notin> unwritable (fs s)"
  shows "run [(''y_true'', mt), (''y_pred'', mp)] s = emit_record mid err row s"
    and "run [(''y_pred'', mp), (''y_true'', mt)] s = emit_record mid err row s"
proof -
  note tf = pair_true_first [OF fresh err row writable]
  note pf = pair_pred_first [OF fresh err row writable]
  have 1: "process_message ''y_true'' mt s = Inr (fst (correlate mid k (store ''y_true'' k gt s)))"
    using process_message_accepted_ok [OF at tf(3)] .
  have 2: "process_message ''y_pred'' mp (fst (correlate mid k (store ''y_true'' k gt s)))
            = Inr (emit_record mid err row s)"
    using process_message_accepted_ok [OF ap tf(2)] tf(1) by simp
  have 3: "process_message ''y_pred'' mp s = Inr (fst (correlate mid k (store ''y_pred'' k pr s)))"
    using process_message_accepted_ok [OF ap pf(3)] .
  have 4: "process_message ''y_true'' mt (fst (correlate mid k (store ''y_pred'' k pr s)))
            = Inr (emit_record mid err row s)"
    using process_message_accepted_ok [OF at pf(2)] pf(1) by simp
  show "run [(''y_true'', mt), (''y_pred'', mp)] s = emit_record mid err row s"
    by (simp add: run_Cons [OF 1] run_Cons [OF 2])
  show "run [(''y_pred'', mp), (''y_true'', mt)] s = emit_record mid err row s"
    by (simp add: run_Cons [OF 3] run_Cons [OF 4])
qed



section \<open>The claims about pairs, halves and the example\<close>

lemma abs_error_example:
  "abs_error (PFloat (Fin 42)) (PFloat (Fin (81 / 2))) = Inr (PFloat (Fin (3 / 2)))"
  by code_simp

lemma csv_row_example:
  "csv_row (PFloat (Fin 1000)) (PFloat (Fin 42)) (PFloat (Fin (81 / 2))) (PFloat (Fin (3 / 2)))
     = Inr (''1000.0,42.0,40.5,1.5'' @ [CHR 0x0A])"
  by code_simp



lemma f0_writable: "csv_path (platform f0) \<notin> unwritable f0"
  by (simp add: f0_def)

lemma initial_fields [simp]:
  "fs (initial f) = f" "data (initial f) = Map.empty" "logged (initial f) = []"
  by (simp_all add: initial_def)

subsection \<open>The limit on the digits of an int\<close>














text \<open>
  C2, as amended. In every state the handler reaches from the start, an entry holds both
  a ground truth and a prediction only if computing \<^verbatim>\<open>abs(y_true - y_pred)\<close> for them
  raises (a value that is not a number, or an int too large for a float). Whenever the
  error can be computed, the entry is removed in the invocation that brought its second
  half.
\<close>

theorem both_halves_only_after_failure:
  assumes "data (run ms (initial f)) k = Some e" "y_true e = Some yt" "y_pred e = Some yp"
  shows "\<exists>err. abs_error yt yp = Inl err"
proof -
  have "pending_inv (run ms (initial f))"
    using consume_inv [OF initial_inv consume_run] .
  with assms show ?thesis unfolding pending_inv_def by blast
qed

theorem both_halves_only_after_failure_witness:
  "data (run stuck_pair (initial f0)) (KNum 1000)
     = Some \<lparr>y_true = Some (PFloat (Fin 42)), y_pred = Some (PList [PFloat (Fin (81 / 2))])\<rparr>
   \<and> abs_error (PFloat (Fin 42)) (PList [PFloat (Fin (81 / 2))]) = Inl TypeError"
proof -
  obtain err where "abs_error (PFloat (Fin 42)) (PList [PFloat (Fin (81 / 2))]) = Inl err"
    using both_halves_only_after_failure [OF stuck_pair_pending] by auto
  moreover have "abs_error (PFloat (Fin 42)) (PList [PFloat (Fin (81 / 2))]) = Inl TypeError"
    by (simp add: abs_error_def py_sub_def)
  ultimately show ?thesis using stuck_pair_pending by simp
qed

text \<open>
  C2 as stated fails: after the ground truth \<^verbatim>\<open>42.0\<close> and the prediction \<^verbatim>\<open>[40.5]\<close> for
  the id \<^verbatim>\<open>1000.0\<close>, the subtraction has raised \<^verbatim>\<open>TypeError\<close> and the entry holds both.
\<close>

theorem both_halves_counterexample:
  "data (run stuck_pair (initial f0)) (KNum 1000)
     = Some \<lparr>y_true = Some (PFloat (Fin 42)), y_pred = Some (PList [PFloat (Fin (81 / 2))])\<rparr>"
  by (rule stuck_pair_pending)

text \<open>
  C5. When \<^verbatim>\<open>body\<close> is absent (or falsy) the handler takes the value of \<^verbatim>\<open>prediction\<close>.
  Processing \<^verbatim>\<open>{"id": 1000.0, "body": 42.0}\<close> from \<^verbatim>\<open>y_true\<close> and then
  \<^verbatim>\<open>{"id": 1000.0, "prediction": 40.5}\<close> from \<^verbatim>\<open>y_pred\<close>, from the start and with a CSV
  file that can be appended to, appends exactly the line \<^verbatim>\<open>1000.0,42.0,40.5,1.5\<close> to that
  file, changes no other file and leaves no entry pending.
\<close>

theorem prediction_synonym_example:
  assumes "csv_path (platform f) \<notin> unwritable f"
  shows "(\<not> py_truthy (dict_get kvs ''body'') \<longrightarrow>
            message_value (PDict kvs) = Inr (dict_get kvs ''prediction''))
       \<and> files (fs (run spec_example (initial f))) (csv_path (platform f))
           = Some ((case files f (csv_path (platform f)) of None \<Rightarrow> [] | Some old \<Rightarrow> old)
                    @ ''1000.0,42.0,40.5,1.5'' @ [CHR 0x0A])
       \<and> (\<forall>p. p \<noteq> csv_path (platform f) \<longrightarrow>
             files (fs (run spec_example (initial f))) p = files f p)
       \<and> data (run spec_example (initial f)) = Map.empty"
proof -
  have at: "accepted (Inr (PDict [(''id'', PFloat (Fin 1000)), (''body'', PFloat (Fin 42))]))
          = Some (PFloat (Fin 1000), KNum 1000, PFloat (Fin 42))"
    by (simp add: accepted_def message_value_def dict_get_def)
  have ap: "accepted (Inr (PDict [(''id'', PFloat (Fin 1000)), (''prediction'', PFloat (Fin (81 / 2)))]))
          = Some (PFloat (Fin 1000), KNum 1000, PFloat (Fin (81 / 2)))"
    by (simp add: accepted_def message_value_def dict_get_def)
  have fresh: "data (initial f) (KNum 1000) = None"
    by simp
  have w: "csv_path (platform (fs (initial f))) \<notin> unwritable (fs (initial f))"
    using assms by simp
  have r: "run spec_example (initial f)
         = emit_record (PFloat (Fin 1000)) (PFloat (Fin (3 / 2)))
             (''1000.0,42.0,40.5,1.5'' @ [CHR 0x0A]) (initial f)"
    unfolding spec_example_def
    by (rule pair_run(1) [OF at ap abs_error_example csv_row_example fresh w])
  have v: "\<not> py_truthy (dict_get kvs ''body'') \<longrightarrow>
            message_value (PDict kvs) = Inr (dict_get kvs ''prediction'')"
    by (simp add: message_value_def)
  show ?thesis
    using v unfolding r by (simp add: emit_record_def)
qed

theorem prediction_synonym_example_witness:
  "csv_path (platform f0) \<notin> unwritable f0
   \<and> message_value (PDict [(''id'', PFloat (Fin 1000)), (''prediction'', PFloat (Fin (81 / 2)))])
       = Inr (PFloat (Fin (81 / 2)))
   \<and> files (fs (run spec_example (initial f0))) (csv_path Nt)
       = Some (''1000.0,42.0,40.5,1.5'' @ [CHR 0x0A])
   \<and> data (run spec_example (initial f0)) = Map.empty"
  using prediction_synonym_example [OF f0_writable,
      of "[(''id'', PFloat (Fin 1000)), (''prediction'', PFloat (Fin (81 / 2)))]"]
  by (simp add: f0_def dict_get_def)

text \<open>
  C6, as amended. A message is accepted for an id when its id is truthy and hashable and
  it has a value that is not \<^verbatim>\<open>None\<close>: its \<^verbatim>\<open>body\<close> when that is truthy, else its
  \<^verbatim>\<open>prediction\<close>. Let all the messages of a run that the handler accepts for one id come
  from the same queue, \<^verbatim>\<open>y_true\<close> or \<^verbatim>\<open>y_pred\<close>, let there be at least one, and let the
  id have no entry before. Then after the run the id has an entry that holds that half only, with
  the value of the last such message; and, for the rest, the run ends in the same state,
  with the same files, as the run without the messages of that id: they caused no row.
\<close>

theorem one_half_stays_pending:
  assumes "side = ''y_true'' \<or> side = ''y_pred''"
    and "\<forall>m \<in> set ms. for_key k m \<longrightarrow> fst m = side"
    and "filter (for_key k) ms \<noteq> []"
    and "data s k = None"
  shows "data (run ms s) k = Some (one_half side (value_of (last (filter (for_key k) ms))))
       \<and> run (filter (\<lambda>m. \<not> for_key k m) ms) s = erase k (run ms s)
       \<and> fs (run ms s) = fs (run (filter (\<lambda>m. \<not> for_key k m) ms) s)"
proof -
  have e: "erase k s = s"
    using assms(4) by (simp add: erase_def fun_upd_idem)
  have "data s k = None \<or> (\<exists>w. data s k = Some (one_half side w))"
    using assms(4) by simp
  from one_sided_run [OF assms(1) assms(2) this] e assms(3)
  show ?thesis
    by (auto simp: erase_def split: list.splits)
qed

theorem one_half_stays_pending_witness:
  "filter (for_key (KNum 1000)) lone_truth
     = [(''y_true'', Inr (PDict [(''id'', PFloat (Fin 1000)), (''body'', PFloat (Fin 42))]))]
   \<and> data (initial f0) (KNum 1000) = None
   \<and> data (run lone_truth (initial f0)) (KNum 1000)
       = Some \<lparr>y_true = Some (PFloat (Fin 42)), y_pred = None\<rparr>
   \<and> fs (run lone_truth (initial f0))
       = fs (run [(''y_pred'', Inr (PDict [(''id'', PInt 7), (''body'', PInt 3)]))] (initial f0))"
proof -
  have a1: "accepted (Inr (PDict [(''id'', PFloat (Fin 1000)), (''body'', PFloat (Fin 42))]))
          = Some (PFloat (Fin 1000), KNum 1000, PFloat (Fin 42))"
    by (simp add: accepted_def message_value_def dict_get_def)
  have a2: "accepted (Inr (PDict [(''id'', PInt 7), (''body'', PInt 3)]))
          = Some (PInt 7, KNum 7, PInt 3)"
    by (simp add: accepted_def message_value_def dict_get_def)
  have f: "filter (for_key (KNum 1000)) lone_truth
     = [(''y_true'', Inr (PDict [(''id'', PFloat (Fin 1000)), (''body'', PFloat (Fin 42))]))]"
    by (simp add: lone_truth_def for_key_def a1 a2)
  have nf: "filter (\<lambda>m. \<not> for_key (KNum 1000) m) lone_truth
     = [(''y_pred'', Inr (PDict [(''id'', PInt 7), (''body'', PInt 3)]))]"
    by (simp add: lone_truth_def for_key_def a1 a2)
  have only: "\<forall>m \<in> set lone_truth. for_key (KNum 1000) m \<longrightarrow> fst m = ''y_true''"
    by (simp add: lone_truth_def for_key_def a1 a2)
  have d: "data (initial f0) (KNum 1000) = None"
    by simp
  have ne: "filter (for_key (KNum 1000)) lone_truth \<noteq> []"
    using f by simp
  show ?thesis
    using one_half_stays_pending [OF _ only ne d] f nf d
    by (simp add: one_half_def value_of_def a1)
qed

text \<open>
  C6 as stated fails: the lone ground truth \<^verbatim>\<open>{"id": 7, "body": 0.0}\<close> is dropped and
  the id has no entry afterwards, as has the id \<^verbatim>\<open>0\<close> of a lone \<^verbatim>\<open>{"id": 0, "body": 42.0}\<close>.
\<close>

theorem lone_half_counterexample:
  "data (run [(''y_true'', Inr (PDict [(''id'', PInt 7), (''body'', PFloat (Fin 0))]))]
          (initial f0)) (KNum 7) = None
   \<and> data (run [(''y_true'', Inr (PDict [(''id'', PInt 0), (''body'', PFloat (Fin 42))]))]
            (initial f0)) (KNum 0) = None"
  by code_simp

section \<open>The Producer's tick\<close>

lemma tick_in_range:
  assumes "r < length X" "length y = length X"
  shows "tick X y r now ch =
           Inr (ch @ [\<lparr>exchange = [], routing_key = ''y_true'',
                        body = PDict [(''id'', PFloat now), (''body'', PFloat (y ! r))],
                        delivery_mode = 2\<rparr>,
                      \<lparr>exchange = [], routing_key = ''features'',
                        body = PDict [(''id'', PFloat now), (''body'', PList (map PFloat (X ! r)))],
                        delivery_mode = 2\<rparr>])"
  using assms by (simp add: tick_def Let_def)

text \<open>
  C8. With a dataset of at least one row and as many targets as rows, a pass of the loop
  has one outcome for each row \<open>r\<close>, each with the same probability \<open>1 / n\<close>. In the
  outcome of row \<open>r\<close> exactly two messages have been published, both persistent
  (\<^verbatim>\<open>delivery_mode=2\<close>) and to queues declared durable, both with the same id: first the
  target \<open>y[r]\<close> to \<^verbatim>\<open>y_true\<close>, then the feature vector \<open>X[r]\<close> to \<^verbatim>\<open>features\<close>.
\<close>

theorem tick_publishes_pair:
  assumes "X \<noteq> []" "length y = length X"
  shows "\<exists>d. tick_outcomes X y now ch = Inr d \<and> length d = length X
           \<and> (\<forall>r < length X.
                 snd (d ! r) = 1 / of_nat (length X)
                 \<and> (\<exists>m1 m2. fst (d ! r) = Inr (ch @ [m1, m2])
                      \<and> routing_key m1 = ''y_true'' \<and> routing_key m2 = ''features''
                      \<and> delivery_mode m1 = 2 \<and> delivery_mode m2 = 2
                      \<and> py_get (body m1) ''id'' = Inr (PFloat now)
                      \<and> py_get (body m2) ''id'' = Inr (PFloat now)
                      \<and> py_get (body m1) ''body'' = Inr (PFloat (y ! r))
                      \<and> py_get (body m2) ''body'' = Inr (PList (map PFloat (X ! r)))))
           \<and> map_of declared_queues ''y_true'' = Some True
           \<and> map_of declared_queues ''features'' = Some True"
proof -
  let ?n = "length X"
  let ?d = "map (\<lambda>(random_row, p). (tick X y random_row now ch, p))
              (map (\<lambda>i. (i, 1 / of_nat ?n)) [0..<?n])"
  have r: "randint 0 ?n = Inr (map (\<lambda>i. (i, 1 / of_nat ?n)) [0..<?n])"
    using assms(1) by (simp add: randint_def)
  have 1: "tick_outcomes X y now ch = Inr ?d"
    by (simp add: tick_outcomes_def r)
  have 2: "length ?d = ?n" by simp
  have 3: "snd (?d ! r) = 1 / of_nat ?n" if "r < ?n" for r
    using that by simp
  have 4: "fst (?d ! r) = tick X y r now ch" if "r < ?n" for r
    using that by simp
  have 5: "\<exists>m1 m2. fst (?d ! r) = Inr (ch @ [m1, m2])
              \<and> routing_key m1 = ''y_true'' \<and> routing_key m2 = ''features''
              \<and> delivery_mode m1 = 2 \<and> delivery_mode m2 = 2
              \<and> py_get (body m1) ''id'' = Inr (PFloat now)
              \<and> py_get (body m2) ''id'' = Inr (PFloat now)
              \<and> py_get (body m1) ''body'' = Inr (PFloat (y ! r))
              \<and> py_get (body m2) ''body'' = Inr (PList (map PFloat (X ! r)))"
    if "r < ?n" for r
    unfolding 4 [OF that] tick_in_range [OF that assms(2)]
    by (intro exI conjI) (rule refl, simp_all add: dict_get_def)
  have 6: "map_of declared_queues ''y_true'' = Some True
         \<and> map_of declared_queues ''features'' = Some True"
    by (simp add: declared_queues_def)
  from 1 2 3 5 6 show ?thesis by blast
qed

theorem tick_publishes_pair_witness:
  "X0 \<noteq> [] \<and> length y0 = length X0
   \<and> tick_outcomes X0 y0 (Fin 1000) []
      = Inr [(Inr [\<lparr>exchange = [], routing_key = ''y_true'',
                     body = PDict [(''id'', PFloat (Fin 1000)), (''body'', PFloat (Fin 151))],
                     delivery_mode = 2\<rparr>,
                   \<lparr>exchange = [], routing_key = ''features'',
                     body = PDict [(''id'', PFloat (Fin 1000)),
                                   (''body'', PList [PFloat (Fin 1), PFloat (Fin 2)])],
                     delivery_mode = 2\<rparr>], 1 / 2),
             (Inr [\<lparr>exchange = [], routing_key = ''y_true'',
                     body = PDict [(''id'', PFloat (Fin 1000)), (''body'', PFloat (Fin 75))],
                     delivery_mode = 2\<rparr>,
                   \<lparr>exchange = [], routing_key = ''features'',
                     body = PDict [(''id'', PFloat (Fin 1000)),
                                   (''body'', PList [PFloat (Fin 3), PFloat (Fin 4)])],
                     delivery_mode = 2\<rparr>], 1 / 2)]"
  using tick_publishes_pair [of X0 y0 "Fin 1000" "[]"]
  by (simp add: X0_def y0_def tick_outcomes_def randint_def tick_def upt_rec Let_def)

end
